theory Spec2Isabelle
  imports Complex_Main "HOL-Library.FSet" "HOL-Library.AList" "HOL-Library.Sublist"
begin

section \<open>The crawler: \<^verbatim>\<open>scraping/flightaware_scraper.py\<close>\<close>

subsection \<open>Library values the crawler works with\<close>

text \<open>
  \<^verbatim>\<open>urllib.parse.urlparse\<close> returns a six-field named tuple. The parser and
  \<^verbatim>\<open>urljoin\<close> belong to the Python standard library, not to this repository; they
  are parameters of the model (fields of \<open>world\<close> below), and only the fields of the
  result are fixed here.
\<close>

record parse_result =
  scheme :: string
  netloc :: string
  path :: string
  params :: string
  query :: string
  fragment :: string

text \<open>
  A parsed document (\<^verbatim>\<open>BeautifulSoup\<close>) is represented by what the crawler reads
  from it. \<open>anchors\<close> lists, in document order, the \<^verbatim>\<open>href\<close> of every
  \<^verbatim>\<open>a\<close> element that has one, with a flag that tells whether the element lies
  inside a \<^verbatim>\<open>script\<close>, \<^verbatim>\<open>style\<close>, \<^verbatim>\<open>nav\<close>, \<^verbatim>\<open>footer\<close>
  or \<^verbatim>\<open>header\<close> element: \<^verbatim>\<open>extract_page_data\<close> removes those elements from
  the tree in place, and \<^verbatim>\<open>scrape\<close> hands the same object to
  \<^verbatim>\<open>extract_links\<close> afterwards. \<open>title_tag\<close> is the stripped text of the first
  \<^verbatim>\<open>title\<close> element (looked up before the removal). \<open>text_content\<close>,
  \<open>meta_tags\<close> and \<open>tables\<close> are what \<^verbatim>\<open>get_text(separator=' ', strip=True)\<close>,
  \<^verbatim>\<open>find_all('meta')\<close> and \<^verbatim>\<open>find_all('table')\<close> give once those elements are
  gone; a table is its rows, a row the stripped texts of its \<^verbatim>\<open>td\<close> and
  \<^verbatim>\<open>th\<close> cells.
\<close>

record meta_tag =
  meta_name :: "string option"
  meta_property :: "string option"
  meta_content :: "string option"

record soup =
  anchors :: "(string \<times> bool) list"
  title_tag :: "string option"
  text_content :: string
  meta_tags :: "meta_tag list"
  tables :: "string list list list"

text \<open>
  What \<^verbatim>\<open>session.get(url, timeout=10)\<close>, \<^verbatim>\<open>raise_for_status()\<close> and the
  \<^verbatim>\<open>BeautifulSoup\<close> constructor give together: a parsed document, or a
  \<^verbatim>\<open>requests.RequestException\<close> with its text.
\<close>

datatype http_outcome = RequestException string | Parsed soup

text \<open>
  The observable effects of a crawl, in the order in which they happen:
  \<^verbatim>\<open>visited_urls.add\<close>, the HTTP GET, \<^verbatim>\<open>logger.error\<close> and
  \<^verbatim>\<open>time.sleep(1)\<close>. The progress lines of \<^verbatim>\<open>logger.info\<close> are left out.
\<close>

datatype event = Add string | Fetch string | LogError string string | Sleep

text \<open>
  The world outside the repository. The answer of the network may depend on everything
  that happened before (\<open>session_get\<close> takes the effects so far). A Python
  \<^verbatim>\<open>set\<close> of strings is modelled as the duplicate-free list of its elements in
  insertion order; the order in which \<^verbatim>\<open>deque.extend\<close> iterates over it is not
  fixed by the language, so it is a parameter (\<open>set_iter\<close>).
\<close>

record world =
  urlparse :: "string \<Rightarrow> parse_result"
  urljoin :: "string \<Rightarrow> string \<Rightarrow> string"
  session_get :: "event list \<Rightarrow> string \<Rightarrow> http_outcome"
  set_iter :: "string list \<Rightarrow> string list"

subsection \<open>Page records\<close>

text \<open>
  The dictionary built by \<^verbatim>\<open>extract_page_data\<close>. Python dictionaries keep
  insertion order and overwrite in place, which is \<open>AList.update\<close> on an association
  list. The key \<^verbatim>\<open>flight_info\<close> is present only when some table row gave a pair.
\<close>

record page_data =
  pd_url :: string
  pd_title :: string
  pd_content :: string
  pd_metadata :: "(string \<times> string) list"
  pd_flight_info :: "(string \<times> string) list option"

subsection \<open>The scraper object and the state of its loop\<close>

text \<open>
  The fields of \<^verbatim>\<open>FlightAwareScraper\<close>, the local queue \<^verbatim>\<open>urls_to_visit\<close>
  of \<^verbatim>\<open>scrape\<close>, and the log of effects.
\<close>

record crawler =
  base_urls :: "string list"
  max_pages :: int
  visited_urls :: "string fset"
  scraped_data :: "page_data list"
  urls_to_visit :: "string list"
  trace :: "event list"

text \<open>The \<^verbatim>\<open>base_urls\<close> argument of the constructor: absent, one string, or a list.\<close>

datatype base_arg = NoUrls | OneUrl string | UrlList "string list"

definition default_base_urls :: "string list" where
  "default_base_urls = [''https://www.flightaware.com/'']"

fun base_urls_of :: "base_arg \<Rightarrow> string list" where
  "base_urls_of NoUrls = default_base_urls"
| "base_urls_of (OneUrl u) = [u]"
| "base_urls_of (UrlList us) = us"

definition init :: "base_arg \<Rightarrow> int \<Rightarrow> crawler" where
  "init arg mp =
     \<lparr>base_urls = base_urls_of arg, max_pages = mp, visited_urls = {||},
      scraped_data = [], urls_to_visit = [], trace = []\<rparr>"

subsection \<open>\<^verbatim>\<open>is_valid_url\<close>, \<^verbatim>\<open>get_page_content\<close>, \<^verbatim>\<open>extract_links\<close>\<close>

definition is_valid_url :: "world \<Rightarrow> string \<Rightarrow> bool" where
  "is_valid_url W url =
     (let parsed = urlparse W url
      in netloc parsed = ''www.flightaware.com'' \<or> netloc parsed = ''flightaware.com'')"

text \<open>
  The result is \<open>None\<close> exactly when the request raised; the second component lists
  the effects (the GET, and the error log line of the handler).
\<close>

definition get_page_content :: "world \<Rightarrow> event list \<Rightarrow> string \<Rightarrow> soup option \<times> event list" where
  "get_page_content W evs url =
     (case session_get W (evs @ [Fetch url]) url of
        Parsed sp \<Rightarrow> (Some sp, [Fetch url])
      | RequestException e \<Rightarrow> (None, [Fetch url, LogError url e]))"

definition clean_url :: "parse_result \<Rightarrow> string" where
  "clean_url parsed = scheme parsed @ ''://'' @ netloc parsed @ path parsed"

text \<open>\<^verbatim>\<open>links.add\<close>: insertion into a set, kept as a duplicate-free list.\<close>

definition set_add :: "string \<Rightarrow> string list \<Rightarrow> string list" where
  "set_add x xs = (if x \<in> set xs then xs else xs @ [x])"

fun links_loop :: "world \<Rightarrow> string fset \<Rightarrow> string \<Rightarrow> string list \<Rightarrow> string list \<Rightarrow> string list" where
  "links_loop W visited current_url [] links = links"
| "links_loop W visited current_url (href # hrefs) links =
     (let absolute_url = urljoin W current_url href;
          parsed = urlparse W absolute_url;
          clean = clean_url parsed
      in links_loop W visited current_url hrefs
           (if is_valid_url W clean \<and> \<not> clean |\<in>| visited then set_add clean links else links))"

definition extract_links :: "world \<Rightarrow> string fset \<Rightarrow> soup option \<Rightarrow> string \<Rightarrow> string list" where
  "extract_links W visited sp current_url =
     (case sp of
        None \<Rightarrow> []
      | Some doc \<Rightarrow> links_loop W visited current_url (map fst (anchors doc)) [])"

subsection \<open>\<^verbatim>\<open>extract_page_data\<close>\<close>

text \<open>
  \<^verbatim>\<open>' '.join(text.split())\<close>: the maximal runs of non-whitespace characters, joined
  by single spaces. The whitespace characters are the ASCII ones.
\<close>

definition is_space :: "char \<Rightarrow> bool" where
  "is_space c \<longleftrightarrow> c \<in> set [CHR '' '', CHR 0x09, CHR 0x0A, CHR 0x0B, CHR 0x0C, CHR 0x0D,
                              CHR 0x1C, CHR 0x1D, CHR 0x1E, CHR 0x1F]"

fun split_ws :: "string \<Rightarrow> string \<Rightarrow> string list" where
  "split_ws [] w = (if w = [] then [] else [w])"
| "split_ws (c # cs) w =
     (if is_space c then (if w = [] then split_ws cs [] else w # split_ws cs [])
      else split_ws cs (w @ [c]))"

fun join_sp :: "string list \<Rightarrow> string" where
  "join_sp [] = []"
| "join_sp [w] = w"
| "join_sp (w # ws) = w @ '' '' @ join_sp ws"

definition truthy :: "string option \<Rightarrow> bool" where
  "truthy v = (case v of None \<Rightarrow> False | Some x \<Rightarrow> x \<noteq> [])"

definition meta_value :: "meta_tag \<Rightarrow> string" where
  "meta_value m = (case meta_content m of None \<Rightarrow> [] | Some c \<Rightarrow> c)"

fun meta_loop :: "meta_tag list \<Rightarrow> (string \<times> string) list \<Rightarrow> (string \<times> string) list" where
  "meta_loop [] md = md"
| "meta_loop (m # ms) md =
     meta_loop ms
       (if truthy (meta_name m) then AList.update (the (meta_name m)) (meta_value m) md
        else if truthy (meta_property m) then AList.update (the (meta_property m)) (meta_value m) md
        else md)"

fun rows_loop :: "string list list \<Rightarrow> (string \<times> string) list \<Rightarrow> (string \<times> string) list" where
  "rows_loop [] fi = fi"
| "rows_loop (cells # rows) fi =
     rows_loop rows
       (case cells of
          k # v # _ \<Rightarrow> (if k \<noteq> [] \<and> v \<noteq> [] then AList.update k v fi else fi)
        | _ \<Rightarrow> fi)"

fun tables_loop :: "string list list list \<Rightarrow> (string \<times> string) list \<Rightarrow> (string \<times> string) list" where
  "tables_loop [] fi = fi"
| "tables_loop (t # ts) fi = tables_loop ts (rows_loop t fi)"

text \<open>The in-place removal of the script, style, nav, footer and header elements.\<close>

definition decompose :: "soup \<Rightarrow> soup" where
  "decompose doc = doc\<lparr>anchors := filter (\<lambda>a. \<not> snd a) (anchors doc)\<rparr>"

text \<open>
  The result is \<open>None\<close> for the empty dictionary that the function returns when there
  is no document. The second component is the document as the call leaves it.
\<close>

definition extract_page_data :: "soup option \<Rightarrow> string \<Rightarrow> page_data option \<times> soup option" where
  "extract_page_data sp url =
     (case sp of
        None \<Rightarrow> (None, None)
      | Some doc \<Rightarrow>
          (let flight_info = tables_loop (tables doc) []
           in (Some \<lparr>pd_url = url,
                     pd_title = (case title_tag doc of None \<Rightarrow> [] | Some t \<Rightarrow> t),
                     pd_content = join_sp (split_ws (text_content doc) []),
                     pd_metadata = meta_loop (meta_tags doc) [],
                     pd_flight_info = (if flight_info \<noteq> [] then Some flight_info else None)\<rparr>,
               Some (decompose doc))))"

text \<open>\<^verbatim>\<open>page_data.get('content')\<close> as a condition.\<close>

definition has_content :: "page_data option \<Rightarrow> bool" where
  "has_content pd = (case pd of None \<Rightarrow> False | Some p \<Rightarrow> pd_content p \<noteq> [])"

subsection \<open>\<^verbatim>\<open>scrape\<close>\<close>

definition running :: "crawler \<Rightarrow> bool" where
  "running s \<longleftrightarrow> urls_to_visit s \<noteq> [] \<and> int (fcard (visited_urls s)) < max_pages s"

text \<open>
  One pass through the body of the \<^verbatim>\<open>while\<close> loop. The loop condition excludes the
  empty queue, on which \<^verbatim>\<open>popleft\<close> would raise.
\<close>

definition visit :: "world \<Rightarrow> string \<Rightarrow> crawler \<Rightarrow> crawler" where
  "visit W current_url s =
     (let s1 = s\<lparr>visited_urls := finsert current_url (visited_urls s),
                 trace := trace s @ [Add current_url]\<rparr>;
          (sp, evs) = get_page_content W (trace s1) current_url;
          s2 = s1\<lparr>trace := trace s1 @ evs\<rparr>;
          s3 = (case sp of
                  None \<Rightarrow> s2
                | Some doc \<Rightarrow>
                    (let (page, doc') = extract_page_data (Some doc) current_url;
                         s2a = (if has_content page
                                then s2\<lparr>scraped_data := scraped_data s2 @ [the page]\<rparr> else s2);
                         new_links = extract_links W (visited_urls s2a) doc' current_url
                     in s2a\<lparr>urls_to_visit := urls_to_visit s2a @ set_iter W new_links\<rparr>))
      in s3\<lparr>trace := trace s3 @ [Sleep]\<rparr>)"

definition crawl_iter :: "world \<Rightarrow> crawler \<Rightarrow> crawler" where
  "crawl_iter W s =
     (case urls_to_visit s of
        [] \<Rightarrow> s
      | current_url # rest \<Rightarrow>
          (let s0 = s\<lparr>urls_to_visit := rest\<rparr>
           in if current_url |\<in>| visited_urls s0 then s0 else visit W current_url s0))"

lemma visit_visited: "visited_urls (visit W u s) = finsert u (visited_urls s)"
  by (simp add: visit_def Let_def split: prod.splits option.splits)

lemma visit_max_pages: "max_pages (visit W u s) = max_pages s"
  by (simp add: visit_def Let_def split: prod.splits option.splits)

lemma crawl_iter_max_pages: "max_pages (crawl_iter W s) = max_pages s"
  by (simp add: crawl_iter_def Let_def visit_max_pages split: list.splits)

lemma crawl_iter_decreases:
  assumes "running s"
  shows "nat (max_pages (crawl_iter W s) - int (fcard (visited_urls (crawl_iter W s))))
           < nat (max_pages s - int (fcard (visited_urls s)))
         \<or> (nat (max_pages (crawl_iter W s) - int (fcard (visited_urls (crawl_iter W s))))
              = nat (max_pages s - int (fcard (visited_urls s)))
            \<and> length (urls_to_visit (crawl_iter W s)) < length (urls_to_visit s))"
proof (cases "urls_to_visit s")
  case Nil
  with assms show ?thesis by (simp add: running_def)
next
  case (Cons u rest)
  show ?thesis
  proof (cases "u |\<in>| visited_urls s")
    case True
    with Cons show ?thesis by (simp add: crawl_iter_def)
  next
    case False
    have "fcard (visited_urls (crawl_iter W s)) = Suc (fcard (visited_urls s))"
      using Cons False by (simp add: crawl_iter_def visit_visited fcard_finsert_if)
    moreover have "max_pages (crawl_iter W s) = max_pages s"
      by (rule crawl_iter_max_pages)
    moreover have "int (fcard (visited_urls s)) < max_pages s"
      using assms by (simp add: running_def)
    ultimately show ?thesis by simp
  qed
qed

function scrape_loop :: "world \<Rightarrow> crawler \<Rightarrow> crawler" where
  "scrape_loop W s = (if running s then scrape_loop W (crawl_iter W s) else s)"
  by pat_completeness auto
termination
proof (relation "measures [\<lambda>(W, s). nat (max_pages s - int (fcard (visited_urls s))),
                           \<lambda>(W, s). length (urls_to_visit s)]")
  show "wf (measures [\<lambda>(W, s). nat (max_pages s - int (fcard (visited_urls s))),
                      \<lambda>(W, s). length (urls_to_visit s)])"
    by simp
next
  fix W :: world and s :: crawler
  assume "running s"
  from crawl_iter_decreases [OF this, of W]
  show "((W, crawl_iter W s), (W, s))
          \<in> measures [\<lambda>(W, s). nat (max_pages s - int (fcard (visited_urls s))),
                      \<lambda>(W, s). length (urls_to_visit s)]"
    by auto
qed

declare scrape_loop.simps [simp del]

definition start :: "crawler \<Rightarrow> crawler" where
  "start s = s\<lparr>urls_to_visit := base_urls s\<rparr>"

definition scrape :: "world \<Rightarrow> crawler \<Rightarrow> crawler" where
  "scrape W s = scrape_loop W (start s)"

text \<open>The states at the head of the loop: the start, and each state an iteration leaves.\<close>

inductive loop_state :: "world \<Rightarrow> crawler \<Rightarrow> crawler \<Rightarrow> bool" for W :: world and s0 :: crawler where
  loop_start: "loop_state W s0 s0"
| loop_iter: "loop_state W s0 s \<Longrightarrow> running s \<Longrightarrow> loop_state W s0 (crawl_iter W s)"

subsection \<open>Effects read off the log\<close>

text \<open>The URLs added to the visited set and the URLs requested, in order.\<close>

definition added :: "event list \<Rightarrow> string list" where
  "added evs = concat (map (\<lambda>e. case e of Add u \<Rightarrow> [u] | _ \<Rightarrow> []) evs)"

definition fetched :: "event list \<Rightarrow> string list" where
  "fetched evs = concat (map (\<lambda>e. case e of Fetch u \<Rightarrow> [u] | _ \<Rightarrow> []) evs)"

lemma added_append [simp]: "added (xs @ ys) = added xs @ added ys"
  by (simp add: added_def)

lemma fetched_append [simp]: "fetched (xs @ ys) = fetched xs @ fetched ys"
  by (simp add: fetched_def)

lemma added_simps [simp]:
  "added [] = []" "added (Add u # evs) = u # added evs" "added (Fetch u # evs) = added evs"
  "added (LogError u e # evs) = added evs" "added (Sleep # evs) = added evs"
  by (simp_all add: added_def)

lemma fetched_simps [simp]:
  "fetched [] = []" "fetched (Add u # evs) = fetched evs" "fetched (Fetch u # evs) = u # fetched evs"
  "fetched (LogError u e # evs) = fetched evs" "fetched (Sleep # evs) = fetched evs"
  by (simp_all add: fetched_def)

lemma get_page_content_effects:
  "snd (get_page_content W evs u) = [Fetch u] \<or> (\<exists>e. snd (get_page_content W evs u) = [Fetch u, LogError u e])"
  by (simp add: get_page_content_def split: http_outcome.splits)

lemma visit_trace:
  "trace (visit W u s) = trace s @ [Add u] @ snd (get_page_content W (trace s @ [Add u]) u) @ [Sleep]"
  by (simp add: visit_def Let_def split: prod.splits option.splits)

lemma visit_data:
  "scraped_data (visit W u s) = scraped_data s \<or>
   (\<exists>p. scraped_data (visit W u s) = scraped_data s @ [p] \<and> pd_url p = u \<and> pd_content p \<noteq> [])"
  by (auto simp: visit_def Let_def has_content_def extract_page_data_def split: prod.splits option.splits)

lemma visit_frontier:
  "\<exists>doc. urls_to_visit (visit W u s) = urls_to_visit s \<or>
     urls_to_visit (visit W u s) = urls_to_visit s @ set_iter W (extract_links W (finsert u (visited_urls s)) (Some doc) u)"
  by (auto simp: visit_def Let_def has_content_def extract_page_data_def split: prod.splits option.splits)


subsection \<open>The loop and its states\<close>

lemma loop_state_scrape_loop: "loop_state W s0 s \<Longrightarrow> loop_state W s0 (scrape_loop W s)"
proof (induction W s rule: scrape_loop.induct)
  case (1 W s)
  show ?case
  proof (cases "running s")
    case True
    with "1.prems" have "loop_state W s0 (crawl_iter W s)"
      by (simp add: loop_iter)
    with True have "loop_state W s0 (scrape_loop W (crawl_iter W s))"
      by (rule "1.IH")
    with True show ?thesis
      by (simp add: scrape_loop.simps [of W s])
  next
    case False
    with "1.prems" show ?thesis
      by (simp add: scrape_loop.simps [of W s])
  qed
qed


lemma loop_state_scrape: "loop_state W (start s) (scrape W s)"
  unfolding scrape_def by (rule loop_state_scrape_loop) (rule loop_start)




subsection \<open>What one iteration does\<close>

lemma crawl_iter_skip:
  "urls_to_visit s = u # rest \<Longrightarrow> u |\<in>| visited_urls s \<Longrightarrow> crawl_iter W s = s\<lparr>urls_to_visit := rest\<rparr>"
  by (simp add: crawl_iter_def)

lemma crawl_iter_visit:
  "urls_to_visit s = u # rest \<Longrightarrow> u |\<notin>| visited_urls s \<Longrightarrow>
   crawl_iter W s = visit W u (s\<lparr>urls_to_visit := rest\<rparr>)"
  by (simp add: crawl_iter_def)

lemma crawl_iter_cases:
  obtains (idle) "urls_to_visit s = []" "crawl_iter W s = s"
  | (skip) u rest where "urls_to_visit s = u # rest" "u |\<in>| visited_urls s"
      "crawl_iter W s = s\<lparr>urls_to_visit := rest\<rparr>"
  | (visit) u rest where "urls_to_visit s = u # rest" "u |\<notin>| visited_urls s"
      "crawl_iter W s = visit W u (s\<lparr>urls_to_visit := rest\<rparr>)"
proof (cases "urls_to_visit s")
  case Nil
  then have "crawl_iter W s = s" by (simp add: crawl_iter_def)
  with Nil show ?thesis by (rule idle)
next
  case (Cons u rest)
  show ?thesis
  proof (cases "u |\<in>| visited_urls s")
    case True
    with Cons show ?thesis by (intro skip [of u rest]) (simp_all add: crawl_iter_skip)
  next
    case False
    with Cons show ?thesis by (intro visit [of u rest]) (simp_all add: crawl_iter_visit)
  qed
qed

lemma visit_log:
  "\<exists>errs. trace (visit W u s) = trace s @ [Add u, Fetch u] @ errs @ [Sleep]
         \<and> added errs = [] \<and> fetched errs = []"
proof -
  from get_page_content_effects [of W "trace s @ [Add u]" u]
  show ?thesis
  proof
    assume "snd (get_page_content W (trace s @ [Add u]) u) = [Fetch u]"
    then have "trace (visit W u s) = trace s @ [Add u, Fetch u] @ [] @ [Sleep]"
      by (simp add: visit_trace)
    then show ?thesis by (intro exI [of _ "[]"]) simp
  next
    assume "\<exists>e. snd (get_page_content W (trace s @ [Add u]) u) = [Fetch u, LogError u e]"
    then obtain e where "snd (get_page_content W (trace s @ [Add u]) u) = [Fetch u, LogError u e]" ..
    then have "trace (visit W u s) = trace s @ [Add u, Fetch u] @ [LogError u e] @ [Sleep]"
      by (simp add: visit_trace)
    then show ?thesis by (intro exI [of _ "[LogError u e]"]) simp
  qed
qed

definition log_ok :: "crawler \<Rightarrow> bool" where
  "log_ok s \<longleftrightarrow> distinct (added (trace s)) \<and> fetched (trace s) = added (trace s)
                \<and> visited_urls s = fset_of_list (added (trace s))"

lemma crawl_iter_log_ok:
  assumes "log_ok s"
  shows "log_ok (crawl_iter W s)"
proof (rule crawl_iter_cases [of s W])
  assume "crawl_iter W s = s"
  with assms show ?thesis by simp
next
  fix u rest
  assume "crawl_iter W s = s\<lparr>urls_to_visit := rest\<rparr>"
  with assms show ?thesis by (simp add: log_ok_def)
next
  fix u rest
  assume visit: "urls_to_visit s = u # rest" "u |\<notin>| visited_urls s"
    "crawl_iter W s = visit W u (s\<lparr>urls_to_visit := rest\<rparr>)"
  let ?s0 = "s\<lparr>urls_to_visit := rest\<rparr>"
  obtain errs where errs: "trace (visit W u ?s0) = trace s @ [Add u, Fetch u] @ errs @ [Sleep]"
      "added errs = []" "fetched errs = []"
    using visit_log [of W u ?s0] by auto
  from visit(2) assms have "u \<notin> set (added (trace s))"
    by (simp add: log_ok_def fset_of_list_elem)
  with assms errs show ?thesis
    by (simp add: visit(3) log_ok_def visit_visited)
qed

lemma loop_state_log_ok: "loop_state W s0 s \<Longrightarrow> log_ok s0 \<Longrightarrow> log_ok s"
  by (induction rule: loop_state.induct) (simp_all add: crawl_iter_log_ok)

lemma log_ok_start: "log_ok (start (init arg mp))"
  by (simp add: log_ok_def start_def init_def)

lemma crawl_iter_nonempty:
  assumes "\<forall>p \<in> set (scraped_data s). pd_content p \<noteq> []"
  shows "\<forall>p \<in> set (scraped_data (crawl_iter W s)). pd_content p \<noteq> []"
proof (rule crawl_iter_cases [of s W])
  assume "crawl_iter W s = s"
  with assms show ?thesis by simp
next
  fix u rest
  assume "crawl_iter W s = s\<lparr>urls_to_visit := rest\<rparr>"
  with assms show ?thesis by simp
next
  fix u rest
  assume "crawl_iter W s = visit W u (s\<lparr>urls_to_visit := rest\<rparr>)"
  with assms visit_data [of W u "s\<lparr>urls_to_visit := rest\<rparr>"] show ?thesis by auto
qed

lemma loop_state_nonempty:
  "loop_state W s0 s \<Longrightarrow> \<forall>p \<in> set (scraped_data s0). pd_content p \<noteq> [] \<Longrightarrow>
   \<forall>p \<in> set (scraped_data s). pd_content p \<noteq> []"
  by (induction rule: loop_state.induct) (simp_all add: crawl_iter_nonempty)

subsection \<open>Link extraction and the origin of URLs\<close>

lemma set_add_set: "set (set_add x xs) = insert x (set xs)"
  by (auto simp: set_add_def)

lemma set_add_distinct: "distinct xs \<Longrightarrow> distinct (set_add x xs)"
  by (simp add: set_add_def)

lemma links_loop_set:
  "set (links_loop W visited cur hrefs links) =
     set links \<union> {u. \<exists>href \<in> set hrefs. u = clean_url (urlparse W (urljoin W cur href))
                        \<and> is_valid_url W u \<and> u |\<notin>| visited}"
proof (induction hrefs arbitrary: links)
  case Nil
  show ?case by simp
next
  case (Cons href hrefs)
  show ?case
    by (simp add: Cons.IH Let_def set_add_set) blast
qed

lemma links_loop_distinct:
  "distinct links \<Longrightarrow> distinct (links_loop W visited cur hrefs links)"
  by (induction hrefs arbitrary: links) (simp_all add: Let_def set_add_distinct)

lemma extract_links_distinct: "distinct (extract_links W visited sp cur)"
  by (cases sp) (simp_all add: extract_links_def links_loop_distinct)

lemma extract_links_link:
  assumes "u \<in> set (extract_links W visited sp cur)"
  shows "is_valid_url W u \<and> (\<exists>c href. u = clean_url (urlparse W (urljoin W c href)))"
  using assms by (cases sp) (auto simp: extract_links_def links_loop_set)

definition keyed :: "crawler \<Rightarrow> bool" where
  "keyed s \<longleftrightarrow> distinct (map pd_url (scraped_data s))
               \<and> (\<forall>p \<in> set (scraped_data s). pd_url p |\<in>| visited_urls s)"

lemma crawl_iter_keyed:
  assumes "keyed s"
  shows "keyed (crawl_iter W s)"
proof (rule crawl_iter_cases [of s W])
  assume "crawl_iter W s = s"
  with assms show ?thesis by simp
next
  fix u rest
  assume "crawl_iter W s = s\<lparr>urls_to_visit := rest\<rparr>"
  with assms show ?thesis by (simp add: keyed_def)
next
  fix u rest
  assume visit: "urls_to_visit s = u # rest" "u |\<notin>| visited_urls s"
    "crawl_iter W s = visit W u (s\<lparr>urls_to_visit := rest\<rparr>)"
  let ?s0 = "s\<lparr>urls_to_visit := rest\<rparr>"
  from assms visit(2) have fresh: "u \<notin> pd_url ` set (scraped_data s)"
    by (auto simp: keyed_def)
  from visit_data [of W u ?s0] show ?thesis
  proof
    assume "scraped_data (visit W u ?s0) = scraped_data ?s0"
    with assms show ?thesis
      by (simp add: visit(3) keyed_def visit_visited)
  next
    assume "\<exists>p. scraped_data (visit W u ?s0) = scraped_data ?s0 @ [p] \<and> pd_url p = u \<and> pd_content p \<noteq> []"
    then obtain p where "scraped_data (visit W u ?s0) = scraped_data s @ [p]" "pd_url p = u"
      by auto
    with assms fresh show ?thesis
      by (simp add: visit(3) keyed_def visit_visited)
  qed
qed

lemma loop_state_keyed: "loop_state W s0 s \<Longrightarrow> keyed s0 \<Longrightarrow> keyed s"
  by (induction rule: loop_state.induct) (simp_all add: crawl_iter_keyed)

text \<open>Where a URL of the queue or of a record comes from: a seed, or link extraction.\<close>

definition origin :: "world \<Rightarrow> string list \<Rightarrow> string \<Rightarrow> bool" where
  "origin W seeds u \<longleftrightarrow>
     u \<in> set seeds \<or> (is_valid_url W u \<and> (\<exists>c href. u = clean_url (urlparse W (urljoin W c href))))"

lemma crawl_iter_origin:
  assumes iter: "\<forall>xs. set (set_iter W xs) \<subseteq> set xs"
    and inv: "\<forall>u \<in> set (urls_to_visit s) \<union> pd_url ` set (scraped_data s). origin W seeds u"
  shows "\<forall>u \<in> set (urls_to_visit (crawl_iter W s)) \<union> pd_url ` set (scraped_data (crawl_iter W s)).
           origin W seeds u"
proof (rule crawl_iter_cases [of s W])
  assume "crawl_iter W s = s"
  with inv show ?thesis by simp
next
  fix u rest
  assume "urls_to_visit s = u # rest" "crawl_iter W s = s\<lparr>urls_to_visit := rest\<rparr>"
  with inv show ?thesis by simp
next
  fix u rest
  assume visit: "urls_to_visit s = u # rest" "u |\<notin>| visited_urls s"
    "crawl_iter W s = visit W u (s\<lparr>urls_to_visit := rest\<rparr>)"
  let ?s0 = "s\<lparr>urls_to_visit := rest\<rparr>"
  from inv visit(1) have u: "origin W seeds u" and rest: "\<forall>v \<in> set rest. origin W seeds v"
    by simp_all
  have data: "\<forall>v \<in> pd_url ` set (scraped_data (visit W u ?s0)). origin W seeds v"
    using visit_data [of W u ?s0] inv u by auto
  obtain doc where "urls_to_visit (visit W u ?s0) = rest \<or>
      urls_to_visit (visit W u ?s0)
        = rest @ set_iter W (extract_links W (finsert u (visited_urls s)) (Some doc) u)"
    using visit_frontier [of W u ?s0] by auto
  moreover have "origin W seeds v"
    if "v \<in> set (set_iter W (extract_links W (finsert u (visited_urls s)) (Some doc) u))" for v
  proof -
    from that iter have "v \<in> set (extract_links W (finsert u (visited_urls s)) (Some doc) u)"
      by blast
    from extract_links_link [OF this] show ?thesis
      by (simp add: origin_def)
  qed
  ultimately have "\<forall>v \<in> set (urls_to_visit (visit W u ?s0)). origin W seeds v"
    using rest by auto
  with data show ?thesis unfolding visit(3) by blast
qed

lemma loop_state_origin:
  assumes "loop_state W s0 s"
    and "\<forall>xs. set (set_iter W xs) \<subseteq> set xs"
    and "\<forall>u \<in> set (urls_to_visit s0) \<union> pd_url ` set (scraped_data s0). origin W seeds u"
  shows "\<forall>u \<in> set (urls_to_visit s) \<union> pd_url ` set (scraped_data s). origin W seeds u"
  using assms
proof (induction rule: loop_state.induct)
  case loop_start
  then show ?case by simp
next
  case (loop_iter s)
  then have "\<forall>u \<in> set (urls_to_visit s) \<union> pd_url ` set (scraped_data s). origin W seeds u"
    by simp
  with loop_iter.prems(1) show ?case by (rule crawl_iter_origin)
qed

subsection \<open>A visited URL is settled\<close>



subsection \<open>An example world\<close>

text \<open>
  The values of \<^verbatim>\<open>urlparse\<close> and \<^verbatim>\<open>urljoin\<close> at the strings of the
  examples, a page with a relative link, a link to the bare domain with a fragment and an
  external link with a query, and a network on which one URL times out.
\<close>

definition mk_parse :: "string \<Rightarrow> string \<Rightarrow> string \<Rightarrow> string \<Rightarrow> string \<Rightarrow> parse_result" where
  "mk_parse s n p q f = \<lparr>scheme = s, netloc = n, path = p, params = [], query = q, fragment = f\<rparr>"

definition ex_urlparse :: "string \<Rightarrow> parse_result" where
  "ex_urlparse u =
     (if u = ''https://www.flightaware.com/'' then mk_parse ''https'' ''www.flightaware.com'' ''/'' [] []
      else if u = ''https://www.flightaware.com/live/'' then mk_parse ''https'' ''www.flightaware.com'' ''/live/'' [] []
      else if u = ''https://flightaware.com/about#team'' then mk_parse ''https'' ''flightaware.com'' ''/about'' [] ''team''
      else if u = ''https://flightaware.com/about'' then mk_parse ''https'' ''flightaware.com'' ''/about'' [] []
      else if u = ''https://example.com/x?y=1'' then mk_parse ''https'' ''example.com'' ''/x'' ''y=1'' []
      else if u = ''https://example.com/x'' then mk_parse ''https'' ''example.com'' ''/x'' [] []
      else if u = ''https://www.flightaware.com/?q=1#top'' then mk_parse ''https'' ''www.flightaware.com'' ''/'' ''q=1'' ''top''
      else mk_parse [] [] u [] [])"

definition ex_urljoin :: "string \<Rightarrow> string \<Rightarrow> string" where
  "ex_urljoin base href = (if href = ''/live/'' then ''https://www.flightaware.com/live/'' else href)"

definition ex_home :: soup where
  "ex_home = \<lparr>anchors = [(''/live/'', False), (''https://flightaware.com/about#team'', False),
                          (''https://example.com/x?y=1'', False)],
              title_tag = Some ''FlightAware'',
              text_content = ''Flight  tracking'',
              meta_tags = [\<lparr>meta_name = Some ''description'', meta_property = None, meta_content = Some ''Live flights''\<rparr>,
                           \<lparr>meta_name = Some ''keywords'', meta_property = None, meta_content = Some ''flights''\<rparr>],
              tables = []\<rparr>"

definition ex_session_get :: "event list \<Rightarrow> string \<Rightarrow> http_outcome" where
  "ex_session_get evs u =
     (if u = ''https://flightaware.com/about'' then RequestException ''timeout'' else Parsed ex_home)"

definition ex_world :: world where
  "ex_world = \<lparr>urlparse = ex_urlparse, urljoin = ex_urljoin, session_get = ex_session_get,
                set_iter = (\<lambda>xs. xs)\<rparr>"

definition ex_page :: "string \<Rightarrow> page_data" where
  "ex_page u = \<lparr>pd_url = u, pd_title = ''FlightAware'', pd_content = ''Flight tracking'',
               pd_metadata = [(''description'', ''Live flights''), (''keywords'', ''flights'')],
               pd_flight_info = None\<rparr>"

definition ex_done :: "string \<Rightarrow> crawler" where
  "ex_done u = \<lparr>base_urls = [u], max_pages = 1, visited_urls = {|u|}, scraped_data = [ex_page u],
      urls_to_visit = [''https://www.flightaware.com/live/'', ''https://flightaware.com/about''],
      trace = [Add u, Fetch u, Sleep]\<rparr>"

lemma ex_world_fields:
  "urlparse ex_world = ex_urlparse" "urljoin ex_world = ex_urljoin"
  "session_get ex_world = ex_session_get" "set_iter ex_world xs = xs"
  by (simp_all add: ex_world_def)

lemma ex_urlparse_simps:
  "ex_urlparse ''https://www.flightaware.com/'' = mk_parse ''https'' ''www.flightaware.com'' ''/'' [] []"
  "ex_urlparse ''https://www.flightaware.com/live/'' = mk_parse ''https'' ''www.flightaware.com'' ''/live/'' [] []"
  "ex_urlparse ''https://flightaware.com/about#team'' = mk_parse ''https'' ''flightaware.com'' ''/about'' [] ''team''"
  "ex_urlparse ''https://flightaware.com/about'' = mk_parse ''https'' ''flightaware.com'' ''/about'' [] []"
  "ex_urlparse ''https://example.com/x?y=1'' = mk_parse ''https'' ''example.com'' ''/x'' ''y=1'' []"
  "ex_urlparse ''https://example.com/x'' = mk_parse ''https'' ''example.com'' ''/x'' [] []"
  "ex_urlparse ''https://www.flightaware.com/?q=1#top'' = mk_parse ''https'' ''www.flightaware.com'' ''/'' ''q=1'' ''top''"
  by (simp_all add: ex_urlparse_def)

lemma ex_links:
  assumes "u \<noteq> ''https://www.flightaware.com/live/''" "u \<noteq> ''https://flightaware.com/about''"
  shows "extract_links ex_world {|u|} (Some ex_home) cur
         = [''https://www.flightaware.com/live/'', ''https://flightaware.com/about'']"
  using assms
  by (simp add: extract_links_def ex_home_def ex_world_fields ex_urljoin_def ex_urlparse_simps mk_parse_def
      clean_url_def is_valid_url_def set_add_def)

lemma ex_extract: "extract_page_data (Some ex_home) u = (Some (ex_page u), Some ex_home)"
  by (simp add: extract_page_data_def ex_home_def ex_page_def is_space_def truthy_def meta_value_def decompose_def)

lemma ex_iter:
  assumes "u \<noteq> ''https://www.flightaware.com/live/''" "u \<noteq> ''https://flightaware.com/about''"
  shows "crawl_iter ex_world (start (init (OneUrl u) 1)) = ex_done u"
  using assms
  by (simp add: crawl_iter_def start_def init_def visit_def get_page_content_def
       ex_world_fields ex_session_get_def ex_extract ex_links has_content_def ex_done_def ex_page_def)

lemma ex_running: "running (start (init (OneUrl u) 1))" "\<not> running (ex_done u)"
  by (simp_all add: running_def start_def init_def ex_done_def fcard_fempty fcard_finsert_if)

lemma ex_run:
  assumes "u \<noteq> ''https://www.flightaware.com/live/''" "u \<noteq> ''https://flightaware.com/about''"
  shows "scrape ex_world (init (OneUrl u) 1) = ex_done u"
proof -
  have "scrape ex_world (init (OneUrl u) 1) = scrape_loop ex_world (ex_done u)"
    unfolding scrape_def
    by (subst scrape_loop.simps) (simp add: ex_running ex_iter [OF assms])
  also have "\<dots> = ex_done u"
    by (subst scrape_loop.simps) (simp add: ex_running)
  finally show ?thesis .
qed

lemma init_NoUrls: "init NoUrls mp = init (OneUrl ''https://www.flightaware.com/'') mp"
  by (simp add: init_def default_base_urls_def)

lemma ex_run_default: "scrape ex_world (init NoUrls 1) = ex_done ''https://www.flightaware.com/''"
  unfolding init_NoUrls by (rule ex_run) simp_all

lemma ex_run_query:
  "scrape ex_world (init (OneUrl ''https://www.flightaware.com/?q=1#top'') 1)
   = ex_done ''https://www.flightaware.com/?q=1#top''"
  by (rule ex_run) simp_all

text \<open>
  A whole run from the default seed with the default ceiling. Every page but one is the
  page above, so the second page links to the third URL again while it is still in the
  queue: the queue holds it twice, its request times out, and its second copy is skipped.
\<close>

definition ex_s0 :: crawler where "ex_s0 = start (init NoUrls 100)"

definition ex_s1 :: crawler where
  "ex_s1 = \<lparr>base_urls = [''https://www.flightaware.com/''], max_pages = 100,
      visited_urls = {|''https://www.flightaware.com/''|},
      scraped_data = [ex_page ''https://www.flightaware.com/''],
      urls_to_visit = [''https://www.flightaware.com/live/'', ''https://flightaware.com/about''],
      trace = [Add ''https://www.flightaware.com/'', Fetch ''https://www.flightaware.com/'', Sleep]\<rparr>"

definition ex_s2 :: crawler where
  "ex_s2 = ex_s1\<lparr>
      visited_urls := {|''https://www.flightaware.com/live/'', ''https://www.flightaware.com/''|},
      scraped_data := [ex_page ''https://www.flightaware.com/'', ex_page ''https://www.flightaware.com/live/''],
      urls_to_visit := [''https://flightaware.com/about'', ''https://flightaware.com/about''],
      trace := trace ex_s1 @ [Add ''https://www.flightaware.com/live/'', Fetch ''https://www.flightaware.com/live/'', Sleep]\<rparr>"

definition ex_s3 :: crawler where
  "ex_s3 = ex_s2\<lparr>
      visited_urls := {|''https://flightaware.com/about'', ''https://www.flightaware.com/live/'',
                        ''https://www.flightaware.com/''|},
      urls_to_visit := [''https://flightaware.com/about''],
      trace := trace ex_s2 @ [Add ''https://flightaware.com/about'', Fetch ''https://flightaware.com/about'',
                 LogError ''https://flightaware.com/about'' ''timeout'', Sleep]\<rparr>"

definition ex_s4 :: crawler where
  "ex_s4 = ex_s3\<lparr>urls_to_visit := []\<rparr>"

lemma ex_links_home:
  assumes "''https://www.flightaware.com/live/'' |\<notin>| v" "''https://flightaware.com/about'' |\<notin>| v"
  shows "extract_links ex_world v (Some ex_home) cur
         = [''https://www.flightaware.com/live/'', ''https://flightaware.com/about'']"
  using assms
  by (simp add: extract_links_def ex_home_def ex_world_fields ex_urljoin_def ex_urlparse_simps mk_parse_def
      clean_url_def is_valid_url_def set_add_def)

lemma ex_links_live:
  assumes "''https://www.flightaware.com/live/'' |\<in>| v" "''https://flightaware.com/about'' |\<notin>| v"
  shows "extract_links ex_world v (Some ex_home) cur = [''https://flightaware.com/about'']"
  using assms
  by (simp add: extract_links_def ex_home_def ex_world_fields ex_urljoin_def ex_urlparse_simps mk_parse_def
      clean_url_def is_valid_url_def set_add_def)

lemma ex_step1: "crawl_iter ex_world ex_s0 = ex_s1"
  by (simp add: ex_s0_def ex_s1_def crawl_iter_def start_def init_def default_base_urls_def visit_def
      get_page_content_def ex_world_fields ex_session_get_def ex_extract ex_links_home has_content_def
      ex_page_def)

lemma ex_step2: "crawl_iter ex_world ex_s1 = ex_s2"
  by (simp add: ex_s1_def ex_s2_def crawl_iter_def visit_def
      get_page_content_def ex_world_fields ex_session_get_def ex_extract ex_links_live has_content_def
      ex_page_def)

lemma ex_step3: "crawl_iter ex_world ex_s2 = ex_s3"
  by (simp add: ex_s1_def ex_s2_def ex_s3_def crawl_iter_def visit_def
      get_page_content_def ex_world_fields ex_session_get_def)

lemma ex_step4: "crawl_iter ex_world ex_s3 = ex_s4"
  by (simp add: ex_s1_def ex_s2_def ex_s3_def ex_s4_def crawl_iter_def)

lemma ex_steps_running: "running ex_s0" "running ex_s1" "running ex_s2" "running ex_s3" "\<not> running ex_s4"
  by (simp_all add: ex_s0_def ex_s1_def ex_s2_def ex_s3_def ex_s4_def running_def start_def init_def
      default_base_urls_def fcard_fempty fcard_finsert_if)


lemma ex_loop_states:
  "loop_state ex_world ex_s0 ex_s1" "loop_state ex_world ex_s0 ex_s2"
  "loop_state ex_world ex_s0 ex_s3" "loop_state ex_world ex_s0 ex_s4"
proof -
  from loop_iter [OF loop_start ex_steps_running(1), of ex_world]
  show 1: "loop_state ex_world ex_s0 ex_s1" by (simp add: ex_step1)
  from loop_iter [OF 1 ex_steps_running(2)]
  show 2: "loop_state ex_world ex_s0 ex_s2" by (simp add: ex_step2)
  from loop_iter [OF 2 ex_steps_running(3)]
  show 3: "loop_state ex_world ex_s0 ex_s3" by (simp add: ex_step3)
  from loop_iter [OF 3 ex_steps_running(4)]
  show "loop_state ex_world ex_s0 ex_s4" by (simp add: ex_step4)
qed

lemma ex_s3_fields:
  "urls_to_visit ex_s3 = [''https://flightaware.com/about'']"
  "visited_urls ex_s3 = {|''https://flightaware.com/about'', ''https://www.flightaware.com/live/'',
                          ''https://www.flightaware.com/''|}"
  "added (trace ex_s3) = [''https://www.flightaware.com/'', ''https://www.flightaware.com/live/'',
                          ''https://flightaware.com/about'']"
  "scraped_data ex_s3 = [ex_page ''https://www.flightaware.com/'', ex_page ''https://www.flightaware.com/live/'']"
  by (simp_all add: ex_s3_def ex_s2_def ex_s1_def)


subsection \<open>The claims about the crawler\<close>

text \<open>
  Claim C1 as the specification states it: link extraction keeps a URL only if its host is
  the host of the seed, and never returns a URL of another host. With the default seed
  \<^verbatim>\<open>https://www.flightaware.com/\<close>, a page that links to
  \<^verbatim>\<open>https://flightaware.com/about#team\<close> yields the link
  \<^verbatim>\<open>https://flightaware.com/about\<close>, whose host is not the seed's.
\<close>

theorem extract_links_other_host:
  "''https://flightaware.com/about''
     \<in> set (extract_links ex_world {|''https://www.flightaware.com/''|} (Some ex_home) ''https://www.flightaware.com/'')
   \<and> netloc (urlparse ex_world ''https://flightaware.com/about'')
       \<noteq> netloc (urlparse ex_world (hd (base_urls (init NoUrls 100))))"
  by (simp add: ex_links ex_world_fields ex_urlparse_simps mk_parse_def init_def default_base_urls_def)

text \<open>
  Claim C1, amended: every URL that \<^verbatim>\<open>extract_links\<close> returns is the resolved
  \<^verbatim>\<open>href\<close> of an anchor of the document, reduced to scheme, host and path; its
  host is exactly \<^verbatim>\<open>www.flightaware.com\<close> or \<^verbatim>\<open>flightaware.com\<close> (two
  fixed hosts, whatever the seed is, and no other subdomain); and it is not in the
  visited set. Without a document nothing is returned.
\<close>

theorem extract_links_only_flightaware:
  assumes "u \<in> set (extract_links W visited sp current_url)"
  shows "(netloc (urlparse W u) = ''www.flightaware.com'' \<or> netloc (urlparse W u) = ''flightaware.com'')
         \<and> u |\<notin>| visited
         \<and> (\<exists>doc href. sp = Some doc \<and> href \<in> fst ` set (anchors doc)
                \<and> u = clean_url (urlparse W (urljoin W current_url href)))"
proof (cases sp)
  case None
  with assms show ?thesis by (simp add: extract_links_def)
next
  case (Some doc)
  with assms obtain href where "href \<in> set (map fst (anchors doc))"
      "u = clean_url (urlparse W (urljoin W current_url href))" "is_valid_url W u" "u |\<notin>| visited"
    by (auto simp: extract_links_def links_loop_set)
  with Some show ?thesis
    by (auto simp: is_valid_url_def Let_def)
qed

text \<open>The amended claim C1 at a link of the example page.\<close>

theorem extract_links_only_flightaware_witness:
  "netloc (urlparse ex_world ''https://www.flightaware.com/live/'') = ''www.flightaware.com''
   \<and> ''https://www.flightaware.com/live/'' |\<notin>| {|''https://www.flightaware.com/''|}"
proof -
  have "''https://www.flightaware.com/live/''
      \<in> set (extract_links ex_world {|''https://www.flightaware.com/''|} (Some ex_home) ''https://www.flightaware.com/'')"
    by (simp add: ex_links)
  from extract_links_only_flightaware [OF this] show ?thesis
    by (simp add: ex_world_fields ex_urlparse_simps mk_parse_def)
qed

text \<open>
  Claim C2: in a run of \<^verbatim>\<open>scrape\<close> on a new scraper, at the head of every
  iteration the URLs added to the visited set are pairwise different, they are exactly
  the URLs requested, in the same order, and they make up the visited set; so no URL is
  requested twice. An iteration that pops a URL already in the visited set only shortens
  the queue: nothing is added or requested, and there is no sleep. An iteration that
  pops a new URL adds it to the visited set first, requests it next, and sleeps last.
\<close>

theorem visited_once:
  "(\<forall>s. loop_state W (start (init arg mp)) s \<longrightarrow>
       distinct (added (trace s)) \<and> fetched (trace s) = added (trace s)
       \<and> visited_urls s = fset_of_list (added (trace s)))
   \<and> distinct (fetched (trace (scrape W (init arg mp))))
   \<and> (\<forall>s u rest. urls_to_visit s = u # rest \<and> u |\<in>| visited_urls s \<longrightarrow>
         crawl_iter W s = s\<lparr>urls_to_visit := rest\<rparr> \<and> trace (crawl_iter W s) = trace s)
   \<and> (\<forall>s u rest. urls_to_visit s = u # rest \<and> u |\<notin>| visited_urls s \<longrightarrow>
         visited_urls (crawl_iter W s) = finsert u (visited_urls s)
         \<and> (\<exists>errs. trace (crawl_iter W s) = trace s @ [Add u, Fetch u] @ errs @ [Sleep]
                \<and> added errs = [] \<and> fetched errs = []))"
proof -
  let ?s0 = "start (init arg mp)"
  have inv: "log_ok s" if "loop_state W ?s0 s" for s
    using that log_ok_start by (rule loop_state_log_ok)
  have "log_ok (scrape W (init arg mp))"
    by (rule inv) (rule loop_state_scrape)
  then have fin: "distinct (fetched (trace (scrape W (init arg mp))))"
    by (simp add: log_ok_def)
  have skip: "crawl_iter W s = s\<lparr>urls_to_visit := rest\<rparr> \<and> trace (crawl_iter W s) = trace s"
    if "urls_to_visit s = u # rest \<and> u |\<in>| visited_urls s" for s u rest
    using that by (simp add: crawl_iter_skip)
  have vis: "visited_urls (crawl_iter W s) = finsert u (visited_urls s)
         \<and> (\<exists>errs. trace (crawl_iter W s) = trace s @ [Add u, Fetch u] @ errs @ [Sleep]
                \<and> added errs = [] \<and> fetched errs = [])"
    if "urls_to_visit s = u # rest \<and> u |\<notin>| visited_urls s" for s u rest
    using that visit_log [of W u "s\<lparr>urls_to_visit := rest\<rparr>"]
    by (simp add: crawl_iter_visit visit_visited)
  from inv fin skip vis show ?thesis
    unfolding log_ok_def by blast
qed

text \<open>Claim C2 on the whole example run: the state after three pages, the repeated URL, the seed.\<close>

theorem visited_once_witness:
  "loop_state ex_world (start (init NoUrls 100)) ex_s3
   \<and> fetched (trace ex_s3) = [''https://www.flightaware.com/'', ''https://www.flightaware.com/live/'',
                               ''https://flightaware.com/about'']
   \<and> urls_to_visit ex_s3 = [''https://flightaware.com/about'']
   \<and> crawl_iter ex_world ex_s3 = ex_s3\<lparr>urls_to_visit := []\<rparr>
   \<and> trace (crawl_iter ex_world ex_s3) = trace ex_s3
   \<and> visited_urls (crawl_iter ex_world (start (init NoUrls 100))) = {|''https://www.flightaware.com/''|}"
proof -
  let ?r = "''https://www.flightaware.com/''"
  let ?a = "''https://flightaware.com/about''"
  have ls: "loop_state ex_world (start (init NoUrls 100)) ex_s3"
    using ex_loop_states(3) by (simp add: ex_s0_def)
  have sk: "urls_to_visit ex_s3 = ?a # [] \<and> ?a |\<in>| visited_urls ex_s3"
    by (simp add: ex_s3_fields)
  have vi: "urls_to_visit (start (init NoUrls 100)) = ?r # []
      \<and> ?r |\<notin>| visited_urls (start (init NoUrls 100))"
    by (simp add: start_def init_def default_base_urls_def)
  from visited_once [of ex_world NoUrls 100] ls sk vi
  have "fetched (trace ex_s3) = added (trace ex_s3)"
    and "crawl_iter ex_world ex_s3 = ex_s3\<lparr>urls_to_visit := []\<rparr> \<and> trace (crawl_iter ex_world ex_s3) = trace ex_s3"
    and "visited_urls (crawl_iter ex_world (start (init NoUrls 100)))
         = finsert ?r (visited_urls (start (init NoUrls 100)))"
    by blast+
  with ls show ?thesis
    by (simp add: ex_s3_fields) (simp add: start_def init_def)
qed






text \<open>
  Claim C7: every page record in the result of \<^verbatim>\<open>scrape\<close> on a new scraper has a
  non-empty content. The filter is the content itself: without a document
  \<^verbatim>\<open>extract_page_data\<close> gives the empty dictionary, which has no content, and a
  document passes exactly when its normalised text is not empty.
\<close>

theorem results_have_content:
  "(\<forall>p \<in> set (scraped_data (scrape W (init arg mp))). pd_content p \<noteq> [])
   \<and> \<not> has_content (fst (extract_page_data None url))
   \<and> (\<forall>doc. has_content (fst (extract_page_data (Some doc) url))
          \<longleftrightarrow> join_sp (split_ws (text_content doc) []) \<noteq> [])"
proof -
  have "\<forall>p \<in> set (scraped_data (scrape W (init arg mp))). pd_content p \<noteq> []"
    by (rule loop_state_nonempty [OF loop_state_scrape]) (simp add: start_def init_def)
  then show ?thesis
    by (simp add: extract_page_data_def has_content_def Let_def)
qed

text \<open>Claim C7 on the record of the example run.\<close>

theorem results_have_content_witness:
  "ex_page ''https://www.flightaware.com/'' \<in> set (scraped_data (scrape ex_world (init NoUrls 1)))
   \<and> pd_content (ex_page ''https://www.flightaware.com/'') \<noteq> []"
proof -
  have "ex_page ''https://www.flightaware.com/'' \<in> set (scraped_data (scrape ex_world (init NoUrls 1)))"
    by (simp add: ex_run_default ex_done_def)
  with results_have_content [of ex_world NoUrls 1] show ?thesis by blast
qed

text \<open>
  Claim C9 as the specification states it: the URL of every page record has neither query
  nor fragment, seeds included. A seed is requested and recorded as the caller wrote it:
  the seed \<^verbatim>\<open>https://www.flightaware.com/?q=1#top\<close> gives a record with that URL.
\<close>

theorem record_url_keeps_query:
  "map pd_url (scraped_data (scrape ex_world (init (OneUrl ''https://www.flightaware.com/?q=1#top'') 1)))
     = [''https://www.flightaware.com/?q=1#top'']
   \<and> query (urlparse ex_world ''https://www.flightaware.com/?q=1#top'') = ''q=1''
   \<and> fragment (urlparse ex_world ''https://www.flightaware.com/?q=1#top'') = ''top''
   \<and> clean_url (urlparse ex_world ''https://www.flightaware.com/?q=1#top'')
       \<noteq> ''https://www.flightaware.com/?q=1#top''"
  by (simp add: ex_run_query ex_done_def ex_page_def ex_world_fields ex_urlparse_simps mk_parse_def clean_url_def)

text \<open>
  Claim C9, amended: in the result of \<^verbatim>\<open>scrape\<close> on a new scraper no two page
  records have the same URL, and the URL of a record is either a seed, exactly as the
  caller supplied it, or a URL made by link extraction: scheme, host and path of a
  resolved \<^verbatim>\<open>href\<close>, on one of the two accepted hosts. The iteration over a set
  of links is assumed to yield elements of that set only.
\<close>

theorem record_urls:
  assumes "\<forall>xs. set (set_iter W xs) \<subseteq> set xs"
  shows "distinct (map pd_url (scraped_data (scrape W (init arg mp))))
         \<and> (\<forall>p \<in> set (scraped_data (scrape W (init arg mp))).
               pd_url p \<in> set (base_urls_of arg)
               \<or> (is_valid_url W (pd_url p)
                  \<and> (\<exists>c href. pd_url p = clean_url (urlparse W (urljoin W c href)))))"
proof -
  let ?s0 = "start (init arg mp)"
  have fin: "loop_state W ?s0 (scrape W (init arg mp))"
    by (rule loop_state_scrape)
  have "keyed ?s0" by (simp add: keyed_def start_def init_def)
  with fin have "keyed (scrape W (init arg mp))" by (rule loop_state_keyed)
  then have d: "distinct (map pd_url (scraped_data (scrape W (init arg mp))))"
    by (simp add: keyed_def)
  have "\<forall>u \<in> set (urls_to_visit ?s0) \<union> pd_url ` set (scraped_data ?s0). origin W (base_urls_of arg) u"
    by (simp add: origin_def start_def init_def)
  with fin assms have "\<forall>u \<in> set (urls_to_visit (scrape W (init arg mp)))
      \<union> pd_url ` set (scraped_data (scrape W (init arg mp))). origin W (base_urls_of arg) u"
    by (rule loop_state_origin)
  with d show ?thesis by (simp add: origin_def)
qed

text \<open>Claim C9 on the example run, whose only record is that of the seed.\<close>

theorem record_urls_witness:
  "set (set_iter ex_world [''a'', ''b'']) \<subseteq> set [''a'', ''b'']
   \<and> distinct (map pd_url (scraped_data (scrape ex_world (init NoUrls 1))))
   \<and> pd_url (ex_page ''https://www.flightaware.com/'') \<in> set (base_urls_of NoUrls)
   \<and> ex_page ''https://www.flightaware.com/'' \<in> set (scraped_data (scrape ex_world (init NoUrls 1)))"
proof -
  have "\<forall>xs. set (set_iter ex_world xs) \<subseteq> set xs"
    by (simp add: ex_world_fields)
  from record_urls [OF this, of NoUrls 1] show ?thesis
    by (simp add: ex_world_fields ex_run_default ex_done_def ex_page_def default_base_urls_def)
qed

section \<open>The ingestor: \<^verbatim>\<open>vector-store/vector_database_manager.py\<close>\<close>

subsection \<open>Data\<close>

text \<open>
  A record of the JSON file, as \<^verbatim>\<open>json_to_documents\<close> reads it: each of the four
  keys may be missing. Values of a document's metadata are strings or integers.
\<close>

record json_item =
  j_url :: "string option"
  j_title :: "string option"
  j_content :: "string option"
  j_metadata :: "(string \<times> string) list option"

datatype jvalue = JStr string | JInt int

record document =
  page_content :: string
  metadata :: "(string \<times> jvalue) list"

text \<open>The fields of \<^verbatim>\<open>JSONPineconeManager\<close> that the conversion reads.\<close>

record manager =
  json_file :: string
  index_name :: string

datatype ingest_error = FileNotFoundError string

subsection \<open>\<^verbatim>\<open>load_json_data\<close> and \<^verbatim>\<open>json_to_documents\<close>\<close>

text \<open>\<^verbatim>\<open>d.get(key, default)\<close> on a key that may be missing, and on a dictionary.\<close>

definition get_or :: "'a option \<Rightarrow> 'a \<Rightarrow> 'a" where
  "get_or v dflt = (case v of None \<Rightarrow> dflt | Some x \<Rightarrow> x)"

definition dict_get :: "(string \<times> 'v) list \<Rightarrow> string \<Rightarrow> 'v \<Rightarrow> 'v" where
  "dict_get d k dflt = get_or (map_of d k) dflt"

text \<open>\<^verbatim>\<open>Path.name\<close>: the last component of a path.\<close>

definition path_name :: "string \<Rightarrow> string" where
  "path_name p = rev (takeWhile (\<lambda>c. c \<noteq> CHR ''/'') (rev p))"

text \<open>The file is given by its parsed content, \<open>None\<close> when it does not exist.\<close>

definition load_json_data :: "manager \<Rightarrow> json_item list option \<Rightarrow> ingest_error + json_item list" where
  "load_json_data M file =
     (case file of
        None \<Rightarrow> Inl (FileNotFoundError (''JSON file not found: '' @ json_file M))
      | Some data \<Rightarrow> Inr data)"

definition full_content :: "json_item \<Rightarrow> string" where
  "full_content item =
     ''Title: '' @ get_or (j_title item) ''Unknown'' @ [CHR 0x0A, CHR 0x0A]
       @ ''Content: '' @ get_or (j_content item) []"

definition doc_metadata :: "manager \<Rightarrow> nat \<Rightarrow> json_item \<Rightarrow> (string \<times> jvalue) list" where
  "doc_metadata M idx item =
     (let metadata_dict = get_or (j_metadata item) [];
          doc_metadata =
            [(''source'', JStr (path_name (json_file M))),
             (''file_type'', JStr ''json''),
             (''url'', JStr (get_or (j_url item) ''Unknown'')),
             (''title'', JStr (get_or (j_title item) ''Unknown'')),
             (''record_index'', JInt (int idx)),
             (''index_name'', JStr (index_name M))]
      in if metadata_dict \<noteq> []
         then AList.update ''og_title'' (JStr (dict_get metadata_dict ''og:title'' []))
                (AList.update ''description'' (JStr (dict_get metadata_dict ''description'' []))
                   doc_metadata)
         else doc_metadata)"

text \<open>
  Modelled from the spec: \<^verbatim>\<open>RecursiveCharacterTextSplitter.split_documents\<close>, the
  chunker of a third-party library that is not under \<^verbatim>\<open>src/\<close>. The specification
  has it emit one chunk per piece of the text, each inheriting the metadata of the
  document it was cut from. How a text is cut into pieces (\<open>split_text\<close>) is a parameter.
\<close>

definition split_documents :: "(string \<Rightarrow> string list) \<Rightarrow> document list \<Rightarrow> document list" where
  "split_documents split_text docs =
     concat (map (\<lambda>d. map (\<lambda>piece. \<lparr>page_content = piece, metadata = metadata d\<rparr>)
                        (split_text (page_content d))) docs)"

text \<open>The last statement of the loop body: split a long document, keep a short one.\<close>

definition chunk_step :: "(string \<Rightarrow> string list) \<Rightarrow> document \<Rightarrow> document list" where
  "chunk_step split_text doc =
     (if length (page_content doc) > 1000 then split_documents split_text [doc] else [doc])"

text \<open>The documents that one pass of the loop body appends.\<close>

definition item_documents :: "(string \<Rightarrow> string list) \<Rightarrow> manager \<Rightarrow> nat \<Rightarrow> json_item \<Rightarrow> document list" where
  "item_documents split_text M idx item =
     chunk_step split_text \<lparr>page_content = full_content item, metadata = doc_metadata M idx item\<rparr>"

fun docs_loop :: "(string \<Rightarrow> string list) \<Rightarrow> manager \<Rightarrow> nat \<Rightarrow> json_item list \<Rightarrow> document list \<Rightarrow> document list" where
  "docs_loop split_text M idx [] documents = documents"
| "docs_loop split_text M idx (item # items) documents =
     docs_loop split_text M (Suc idx) items (documents @ item_documents split_text M idx item)"

definition json_to_documents :: "(string \<Rightarrow> string list) \<Rightarrow> manager \<Rightarrow> json_item list option \<Rightarrow> ingest_error + document list" where
  "json_to_documents split_text M file =
     (case load_json_data M file of
        Inl e \<Rightarrow> Inl e
      | Inr json_data \<Rightarrow> Inr (docs_loop split_text M 0 json_data []))"

subsection \<open>Facts\<close>

lemma docs_loop_concat:
  "docs_loop sp M idx items documents =
     documents @ concat (map (\<lambda>(i, item). item_documents sp M i item) (enumerate idx items))"
  by (induction items arbitrary: idx documents) simp_all

lemma split_documents_metadata:
  "d \<in> set (split_documents sp [doc]) \<Longrightarrow> metadata d = metadata doc"
  by (auto simp: split_documents_def)

lemma chunk_step_metadata: "d \<in> set (chunk_step sp doc) \<Longrightarrow> metadata d = metadata doc"
  by (auto simp: chunk_step_def dest: split_documents_metadata split: if_splits)

lemma doc_metadata_keys:
  "map fst (doc_metadata M idx item) =
     [''source'', ''file_type'', ''url'', ''title'', ''record_index'', ''index_name'']
     @ (if get_or (j_metadata item) [] \<noteq> [] then [''description'', ''og_title''] else [])"
  by (simp add: doc_metadata_def Let_def)

subsection \<open>An example record\<close>

definition ex_manager :: manager where
  "ex_manager = \<lparr>json_file = ''scraping/flightaware_data.json'', index_name = ''flightaware-data''\<rparr>"

definition ex_item :: json_item where
  "ex_item = \<lparr>j_url = Some ''https://www.flightaware.com/'', j_title = Some ''FlightAware'',
               j_content = Some ''Flight tracking'',
               j_metadata = Some [(''description'', ''Live flights''), (''keywords'', ''flights'')]\<rparr>"

definition ex_long_item :: json_item where
  "ex_long_item = ex_item\<lparr>j_content := Some (replicate 1200 (CHR ''a''))\<rparr>"

definition ex_split_text :: "string \<Rightarrow> string list" where
  "ex_split_text text = [take 1000 text, drop 800 text]"

lemma ex_item_short: "length (full_content ex_item) = 44"
  by (simp add: full_content_def ex_item_def get_or_def)

lemma ex_long_item_long: "length (full_content ex_long_item) = 1229"
  by (simp add: full_content_def ex_long_item_def ex_item_def get_or_def)

lemma ex_doc_metadata:
  "doc_metadata ex_manager i ex_item =
     [(''source'', JStr ''flightaware_data.json''), (''file_type'', JStr ''json''),
      (''url'', JStr ''https://www.flightaware.com/''), (''title'', JStr ''FlightAware''),
      (''record_index'', JInt (int i)), (''index_name'', JStr ''flightaware-data''),
      (''description'', JStr ''Live flights''), (''og_title'', JStr [])]"
  by (simp add: doc_metadata_def ex_manager_def ex_item_def get_or_def dict_get_def path_name_def)

subsection \<open>The claims about the ingestor\<close>

text \<open>
  Claim C5 as the specification states it: the metadata of a chunk holds a copy of the
  whole metadata map of its record. The record above has a \<^verbatim>\<open>keywords\<close> entry; the
  document made from it has none.
\<close>

theorem chunk_metadata_drops_keys:
  "map_of (get_or (j_metadata ex_item) []) ''keywords'' = Some ''flights''
   \<and> item_documents ex_split_text ex_manager 0 ex_item
       = [\<lparr>page_content = full_content ex_item, metadata = doc_metadata ex_manager 0 ex_item\<rparr>]
   \<and> map_of (doc_metadata ex_manager 0 ex_item) ''keywords'' = None"
  by (simp add: item_documents_def chunk_step_def ex_item_short ex_doc_metadata)
    (simp add: ex_item_def get_or_def)

text \<open>
  Claim C5, amended: the documents of a run are those of its records, in order, each
  record converted with its index. Every document made from a record, whether the only
  one or one of several chunks, carries the same metadata: the file name
  (\<^verbatim>\<open>source\<close>), \<^verbatim>\<open>file_type\<close>, the record's \<^verbatim>\<open>url\<close> and \<^verbatim>\<open>title\<close>,
  \<^verbatim>\<open>record_index\<close> and \<^verbatim>\<open>index_name\<close>, and, when the record's metadata map is
  not empty, \<^verbatim>\<open>description\<close> and \<^verbatim>\<open>og_title\<close>, taken from the entries
  \<^verbatim>\<open>description\<close> and \<^verbatim>\<open>og:title\<close> of that map (empty when missing). No other
  entry of the record's metadata map is copied.
\<close>

theorem chunk_metadata:
  "json_to_documents sp M (Some data)
     = Inr (concat (map (\<lambda>(i, item). item_documents sp M i item) (enumerate 0 data)))
   \<and> (\<forall>d \<in> set (item_documents sp M i item). metadata d = doc_metadata M i item)
   \<and> map fst (doc_metadata M i item) =
       [''source'', ''file_type'', ''url'', ''title'', ''record_index'', ''index_name'']
       @ (if get_or (j_metadata item) [] \<noteq> [] then [''description'', ''og_title''] else [])
   \<and> map_of (doc_metadata M i item) ''source'' = Some (JStr (path_name (json_file M)))
   \<and> map_of (doc_metadata M i item) ''record_index'' = Some (JInt (int i))
   \<and> map_of (doc_metadata M i item) ''index_name'' = Some (JStr (index_name M))
   \<and> (get_or (j_metadata item) [] \<noteq> [] \<longrightarrow>
        map_of (doc_metadata M i item) ''description''
          = Some (JStr (dict_get (get_or (j_metadata item) []) ''description'' []))
        \<and> map_of (doc_metadata M i item) ''og_title''
          = Some (JStr (dict_get (get_or (j_metadata item) []) ''og:title'' [])))"
proof -
  have run: "json_to_documents sp M (Some data)
      = Inr (concat (map (\<lambda>(i, item). item_documents sp M i item) (enumerate 0 data)))"
    by (simp add: json_to_documents_def load_json_data_def docs_loop_concat)
  have same: "\<forall>d \<in> set (item_documents sp M i item). metadata d = doc_metadata M i item"
    by (auto simp: item_documents_def dest: chunk_step_metadata)
  have vals: "map_of (doc_metadata M i item) ''source'' = Some (JStr (path_name (json_file M)))"
    "map_of (doc_metadata M i item) ''record_index'' = Some (JInt (int i))"
    "map_of (doc_metadata M i item) ''index_name'' = Some (JStr (index_name M))"
    by (simp_all add: doc_metadata_def Let_def update_conv')
  have md: "get_or (j_metadata item) [] \<noteq> [] \<longrightarrow>
        map_of (doc_metadata M i item) ''description''
          = Some (JStr (dict_get (get_or (j_metadata item) []) ''description'' []))
        \<and> map_of (doc_metadata M i item) ''og_title''
          = Some (JStr (dict_get (get_or (j_metadata item) []) ''og:title'' []))"
    by (simp add: doc_metadata_def Let_def update_conv')
  from run same doc_metadata_keys [of M i item] vals md show ?thesis by blast
qed

text \<open>Claim C5 on a long record, cut into two chunks that share the metadata.\<close>

theorem chunk_metadata_witness:
  "length (item_documents ex_split_text ex_manager 3 ex_long_item) = 2
   \<and> map metadata (item_documents ex_split_text ex_manager 3 ex_long_item)
       = [doc_metadata ex_manager 3 ex_long_item, doc_metadata ex_manager 3 ex_long_item]
   \<and> map_of (doc_metadata ex_manager 3 ex_long_item) ''description'' = Some (JStr ''Live flights'')"
proof -
  let ?docs = "item_documents ex_split_text ex_manager 3 ex_long_item"
  have docs: "?docs = [\<lparr>page_content = take 1000 (full_content ex_long_item),
                          metadata = doc_metadata ex_manager 3 ex_long_item\<rparr>,
                        \<lparr>page_content = drop 800 (full_content ex_long_item),
                          metadata = doc_metadata ex_manager 3 ex_long_item\<rparr>]"
    by (simp add: item_documents_def chunk_step_def ex_long_item_long split_documents_def ex_split_text_def)
  have md: "get_or (j_metadata ex_long_item) [] \<noteq> []"
    by (simp add: ex_long_item_def ex_item_def get_or_def)
  from chunk_metadata [of ex_split_text ex_manager "[]" 3 ex_long_item] md
  have "\<forall>d \<in> set ?docs. metadata d = doc_metadata ex_manager 3 ex_long_item"
    and "map_of (doc_metadata ex_manager 3 ex_long_item) ''description''
          = Some (JStr (dict_get (get_or (j_metadata ex_long_item) []) ''description'' []))"
    by blast+
  then show ?thesis
    by (simp add: docs) (simp add: ex_long_item_def ex_item_def get_or_def dict_get_def)
qed



section \<open>The service: \<^verbatim>\<open>rag.py\<close> and \<^verbatim>\<open>app.py\<close>\<close>

subsection \<open>Data\<close>

text \<open>
  A call into a library either returns or raises an exception, of which the service only
  ever uses the text (\<^verbatim>\<open>str(e)\<close>).
\<close>

datatype 'a outcome = Raised string | Returned 'a

text \<open>
  The content of a message of the orchestration library is a string or a list of blocks.
  A message is represented by its \<^verbatim>\<open>type\<close> and its \<^verbatim>\<open>content\<close>.
\<close>

datatype content = Text string | Blocks "string list"

record message =
  msg_type :: string
  msg_content :: content

text \<open>
  What lies outside the repository. \<open>stream\<close> is the run of the agent (first argument
  \<open>True\<close>) or of the conversational graph on a message under a thread identifier: it
  raises, or returns the list of its states, each with its \<^verbatim>\<open>messages\<close> entry if it
  has one. \<open>print_raises\<close> tells whether writing a line to standard output raises.
  \<open>blocks_str\<close> is \<^verbatim>\<open>str\<close> of a list of blocks, \<open>validation_text\<close> the text of
  the validation error for a response that is not a string, \<open>now\<close> the successive
  readings of the clock.
\<close>

record service_env =
  stream :: "bool \<Rightarrow> string \<Rightarrow> string \<Rightarrow> message list option list outcome"
  print_raises :: "string \<Rightarrow> string option"
  blocks_str :: "string list \<Rightarrow> string"
  validation_text :: "string list \<Rightarrow> string"
  now :: "nat \<Rightarrow> real"

text \<open>The dictionary that \<^verbatim>\<open>get_response\<close> returns; only its error form has the key \<^verbatim>\<open>error\<close>.\<close>

record response_data =
  rd_user_id :: string
  rd_query :: string
  rd_response :: content
  rd_mode :: string
  rd_data_source :: string
  rd_timestamp :: real
  rd_status_code :: int
  rd_error :: "string option"

text \<open>The request and response models of the endpoint, and the exception that rejects a request.\<close>

record chat_request =
  req_user_id :: string
  req_query :: string
  req_use_agent :: bool

record chat_response =
  cr_user_id :: string
  cr_query :: string
  cr_response :: string
  cr_mode :: string
  cr_data_source :: "string option"
  cr_source_urls :: "string list"
  cr_timestamp :: real
  cr_error :: "string option"
  cr_status_code :: int

datatype http_exception = HTTPException int string

subsection \<open>\<^verbatim>\<open>get_response\<close>\<close>

text \<open>The thread identifier of \<^verbatim>\<open>get_user_config\<close>.\<close>

definition get_user_config :: "string \<Rightarrow> string" where
  "get_user_config user_id = ''user_'' @ user_id"

definition content_truthy :: "content \<Rightarrow> bool" where
  "content_truthy c = (case c of Text s \<Rightarrow> s \<noteq> [] | Blocks bs \<Rightarrow> bs \<noteq> [])"

definition content_str :: "service_env \<Rightarrow> content \<Rightarrow> string" where
  "content_str E c = (case c of Text s \<Rightarrow> s | Blocks bs \<Rightarrow> blocks_str E bs)"

definition stream_failure_text :: string where
  "stream_failure_text =
     ''I'm experiencing some technical difficulties. Please try again or rephrase your question.''"

definition fallback_text :: string where
  "fallback_text =
     ''I'm here to help, but I'm having trouble processing your message right now. Could you please try rephrasing your question?''"

definition apology_text :: string where
  "apology_text =
     ''I apologize, but I encountered an error while processing your message. Please try again. If the problem persists, please contact support.''"

text \<open>The handler of the outer \<^verbatim>\<open>try\<close>.\<close>

definition error_response :: "service_env \<Rightarrow> string \<Rightarrow> string \<Rightarrow> string \<Rightarrow> response_data" where
  "error_response E message user_id e =
     \<lparr>rd_user_id = user_id, rd_query = message, rd_response = Text apology_text,
      rd_mode = ''error'', rd_data_source = ''none'', rd_timestamp = now E 1,
      rd_status_code = 500, rd_error = Some e\<rparr>"

fun sources_loop :: "service_env \<Rightarrow> message list \<Rightarrow> string list \<Rightarrow> string list" where
  "sources_loop E [] used = used"
| "sources_loop E (msg # msgs) used =
     sources_loop E msgs
       (if msg_type msg = ''tool'' \<and> content_truthy (msg_content msg)
        then (let c = content_str E (msg_content msg);
                  used1 = (if sublist ''Data Source: JSON'' c then set_add ''json'' used else used)
              in if sublist ''Data Source: PDF'' c then set_add ''pdf'' used1 else used1)
        else used)"

definition data_source_of :: "string list \<Rightarrow> string" where
  "data_source_of used =
     (if length used > 1 then ''both''
      else if ''json'' \<in> set used then ''json''
      else if ''pdf'' \<in> set used then ''pdf''
      else ''none'')"

text \<open>
  An exception of the stream is caught by the inner handler, which prints it and returns
  the dictionary with a fixed text. An exception raised inside that handler (by
  \<^verbatim>\<open>print\<close>) reaches the outer handler.
\<close>

definition get_response :: "service_env \<Rightarrow> string \<Rightarrow> string \<Rightarrow> bool \<Rightarrow> response_data" where
  "get_response E message user_id use_agent =
     (let config = get_user_config user_id;
          response_data =
            \<lparr>rd_user_id = user_id, rd_query = message, rd_response = Text [],
             rd_mode = (if use_agent then ''agent'' else ''assistant''),
             rd_data_source = ''none'', rd_timestamp = now E 0, rd_status_code = 200,
             rd_error = None\<rparr>
      in case stream E use_agent message config of
           Raised stream_error \<Rightarrow>
             (case print_raises E (''Error in conversation stream: '' @ stream_error) of
                Some e \<Rightarrow> error_response E message user_id e
              | None \<Rightarrow> response_data\<lparr>rd_response := Text stream_failure_text,
                                       rd_data_source := ''none'', rd_status_code := 500\<rparr>)
         | Returned events \<Rightarrow>
             (let all_messages =
                    (if events \<noteq> [] then (case last events of None \<Rightarrow> [] | Some ms \<Rightarrow> ms) else []);
                  response_data1 =
                    (if all_messages \<noteq> []
                     then response_data\<lparr>rd_response := msg_content (last all_messages)\<rparr>
                     else response_data);
                  data_sources_used = sources_loop E all_messages [];
                  response_data2 = response_data1\<lparr>rd_data_source := data_source_of data_sources_used\<rparr>
              in if \<not> content_truthy (rd_response response_data2)
                 then response_data2\<lparr>rd_response := Text fallback_text, rd_data_source := ''none''\<rparr>
                 else response_data2))"

subsection \<open>\<^verbatim>\<open>lifespan\<close> and \<^verbatim>\<open>chat_endpoint\<close>\<close>

text \<open>
  The start of the application: the new value of \<^verbatim>\<open>system_initialized\<close>, given what
  \<^verbatim>\<open>initialize_rag_system\<close> did. The handler does not raise again, so the start
  itself returns.
\<close>

definition lifespan :: "unit outcome \<Rightarrow> bool outcome" where
  "lifespan startup = (case startup of Raised e \<Rightarrow> Returned False | Returned _ \<Rightarrow> Returned True)"

text \<open>
  \<^verbatim>\<open>ChatResponse(**response_data)\<close>: the response has to be a string; a missing
  \<^verbatim>\<open>source_urls\<close> is the empty list.
\<close>

definition ChatResponse :: "service_env \<Rightarrow> response_data \<Rightarrow> chat_response outcome" where
  "ChatResponse E rd =
     (case rd_response rd of
        Blocks bs \<Rightarrow> Raised (validation_text E bs)
      | Text s \<Rightarrow>
          Returned \<lparr>cr_user_id = rd_user_id rd, cr_query = rd_query rd, cr_response = s,
                    cr_mode = rd_mode rd, cr_data_source = Some (rd_data_source rd),
                    cr_source_urls = [], cr_timestamp = rd_timestamp rd,
                    cr_error = rd_error rd, cr_status_code = rd_status_code rd\<rparr>)"

definition not_initialized_detail :: string where
  "not_initialized_detail = ''FlightAware system is not initialized. Please check server logs.''"

definition chat_endpoint :: "service_env \<Rightarrow> bool \<Rightarrow> chat_request \<Rightarrow> http_exception + chat_response" where
  "chat_endpoint E system_initialized request =
     (if \<not> system_initialized then Inl (HTTPException 503 not_initialized_detail)
      else (let response_data =
                  get_response E (req_query request) (req_user_id request) (req_use_agent request)
            in case ChatResponse E response_data of
                 Returned r \<Rightarrow> Inr r
               | Raised e \<Rightarrow> Inl (HTTPException 500 (''Error processing your message: '' @ e))))"

subsection \<open>\<^verbatim>\<open>clear_conversation\<close>\<close>

text \<open>
  The state that a conversation can change: what the memory checkpointer holds for each
  thread identifier, and the lines written to standard output. The history of a user is
  what the checkpointer holds under the thread identifier of \<^verbatim>\<open>get_user_config\<close>.
\<close>

record rag_state =
  checkpoints :: "string \<Rightarrow> message list"
  stdout :: "string list"

definition history :: "rag_state \<Rightarrow> string \<Rightarrow> message list" where
  "history st user_id = checkpoints st (get_user_config user_id)"

definition cleared_line :: "string \<Rightarrow> string" where
  "cleared_line user_id =
     [CHR 0xF0, CHR 0x9F, CHR 0xA7, CHR 0xB9] @ '' Cleared conversation memory for user: '' @ user_id"

text \<open>
  The function prints one line; the result says whether \<^verbatim>\<open>print\<close> raised, and gives
  the state afterwards.
\<close>

definition clear_conversation :: "service_env \<Rightarrow> string \<Rightarrow> rag_state \<Rightarrow> unit outcome \<times> rag_state" where
  "clear_conversation E user_id st =
     (case print_raises E (cleared_line user_id) of
        Some e \<Rightarrow> (Raised e, st)
      | None \<Rightarrow> (Returned (), st\<lparr>stdout := stdout st @ [cleared_line user_id]\<rparr>))"

subsection \<open>Examples\<close>

definition ex_answer :: "message list option list" where
  "ex_answer =
     [Some [\<lparr>msg_type = ''human'', msg_content = Text ''How are flights tracked?''\<rparr>],
      Some [\<lparr>msg_type = ''human'', msg_content = Text ''How are flights tracked?''\<rparr>,
            \<lparr>msg_type = ''tool'', msg_content = Text ''Data Source: JSON''\<rparr>,
            \<lparr>msg_type = ''ai'', msg_content = Text ''With ADS-B.''\<rparr>]]"

definition ex_blocks_answer :: "message list option list" where
  "ex_blocks_answer = [Some [\<lparr>msg_type = ''ai'', msg_content = Blocks [''With ADS-B.'']\<rparr>]]"

definition ex_print_ok :: "string \<Rightarrow> string option" where
  "ex_print_ok line = None"

definition ex_print_closed :: "string \<Rightarrow> string option" where
  "ex_print_closed line = Some ''I/O operation on closed file''"

definition ex_env :: "message list option list outcome \<Rightarrow> (string \<Rightarrow> string option) \<Rightarrow> service_env" where
  "ex_env out pr = \<lparr>stream = (\<lambda>agent message thread. out), print_raises = pr,
                    blocks_str = concat, validation_text = (\<lambda>bs. ''Input should be a valid string''),
                    now = (\<lambda>k. 0)\<rparr>"

definition ex_request :: chat_request where
  "ex_request = \<lparr>req_user_id = ''user123'', req_query = ''How are flights tracked?'', req_use_agent = True\<rparr>"

lemma ex_answer_response:
  "chat_endpoint (ex_env (Returned ex_answer) ex_print_ok) True ex_request =
     Inr \<lparr>cr_user_id = ''user123'', cr_query = ''How are flights tracked?'',
          cr_response = ''With ADS-B.'', cr_mode = ''agent'', cr_data_source = Some ''json'',
          cr_source_urls = [], cr_timestamp = 0, cr_error = None, cr_status_code = 200\<rparr>"
  by (simp add: chat_endpoint_def get_response_def ex_env_def ex_request_def ex_answer_def
      ChatResponse_def content_truthy_def content_str_def data_source_of_def set_add_def
      sublist_code Let_def)

subsection \<open>The claims about the service\<close>

lemma get_response_stream_raised:
  assumes "stream E use_agent message (get_user_config user_id) = Raised err"
  shows "get_response E message user_id use_agent =
     (case print_raises E (''Error in conversation stream: '' @ err) of
        Some e \<Rightarrow> error_response E message user_id e
      | None \<Rightarrow> \<lparr>rd_user_id = user_id, rd_query = message, rd_response = Text stream_failure_text,
                  rd_mode = (if use_agent then ''agent'' else ''assistant''),
                  rd_data_source = ''none'', rd_timestamp = now E 0, rd_status_code = 500,
                  rd_error = None\<rparr>)"
  using assms by (simp add: get_response_def Let_def split: option.splits)

text \<open>
  Claim C6 as the specification states it: whenever the processing of a request fails, the
  response is a generic apology without the text of the error. Two failures show the
  text to the user. When the stream raises and printing that error raises in its turn
  (standard output is closed), the response carries the text of the second exception in
  its \<^verbatim>\<open>error\<close> field.
  When the reply of the model is a list of blocks, building the response raises a
  validation error and the request is rejected with that text in the detail.
\<close>

theorem failure_shows_error_text:
  "chat_endpoint (ex_env (Raised ''connection reset'') ex_print_closed) True ex_request
     = Inr \<lparr>cr_user_id = ''user123'', cr_query = ''How are flights tracked?'',
            cr_response = apology_text, cr_mode = ''error'', cr_data_source = Some ''none'',
            cr_source_urls = [], cr_timestamp = 0,
            cr_error = Some ''I/O operation on closed file'', cr_status_code = 500\<rparr>
   \<and> chat_endpoint (ex_env (Returned ex_blocks_answer) ex_print_ok) True ex_request
     = Inl (HTTPException 500 ''Error processing your message: Input should be a valid string'')"
  by (simp add: chat_endpoint_def get_response_def ex_env_def ex_request_def ChatResponse_def
      error_response_def content_truthy_def data_source_of_def ex_print_closed_def
      ex_blocks_answer_def Let_def)

text \<open>
  Claim C6, amended. A failed initialisation does not stop the start of the application:
  it leaves the service not initialised, and a service that is not initialised rejects
  every request with status 503 and a fixed detail. In an initialised service: when the
  stream raises and the error can be printed, the response is a fixed message of
  technical difficulties with status code 500 and no error field, the same whatever the
  text of the error; when printing raises, the response text is the fixed apology and
  the \<^verbatim>\<open>error\<close> field holds the text of that exception; when the reply is not a
  string, the request is rejected with status 500 and a detail that ends with the text of
  the validation error.
\<close>

theorem request_failures:
  "(\<exists>b. lifespan startup = Returned b)
   \<and> lifespan (Raised e) = Returned False
   \<and> chat_endpoint E False request = Inl (HTTPException 503 not_initialized_detail)
   \<and> (stream E (req_use_agent request) (req_query request) (get_user_config (req_user_id request))
         = Raised err
       \<and> print_raises E (''Error in conversation stream: '' @ err) = None \<longrightarrow>
       chat_endpoint E True request =
         Inr \<lparr>cr_user_id = req_user_id request, cr_query = req_query request,
              cr_response = stream_failure_text,
              cr_mode = (if req_use_agent request then ''agent'' else ''assistant''),
              cr_data_source = Some ''none'', cr_source_urls = [], cr_timestamp = now E 0,
              cr_error = None, cr_status_code = 500\<rparr>)
   \<and> (stream E (req_use_agent request) (req_query request) (get_user_config (req_user_id request))
         = Raised err
       \<and> print_raises E (''Error in conversation stream: '' @ err) = Some e \<longrightarrow>
       chat_endpoint E True request =
         Inr \<lparr>cr_user_id = req_user_id request, cr_query = req_query request,
              cr_response = apology_text, cr_mode = ''error'',
              cr_data_source = Some ''none'', cr_source_urls = [], cr_timestamp = now E 1,
              cr_error = Some e, cr_status_code = 500\<rparr>)
   \<and> (rd_response (get_response E (req_query request) (req_user_id request) (req_use_agent request))
         = Blocks bs \<longrightarrow>
       chat_endpoint E True request =
         Inl (HTTPException 500 (''Error processing your message: '' @ validation_text E bs)))"
proof -
  have start: "\<exists>b. lifespan startup = Returned b"
    by (cases startup) (auto simp: lifespan_def)
  have failed: "lifespan (Raised e) = Returned False"
    by (simp add: lifespan_def)
  have closed: "chat_endpoint E False request = Inl (HTTPException 503 not_initialized_detail)"
    by (simp add: chat_endpoint_def)
  have printed: "chat_endpoint E True request =
         Inr \<lparr>cr_user_id = req_user_id request, cr_query = req_query request,
              cr_response = stream_failure_text,
              cr_mode = (if req_use_agent request then ''agent'' else ''assistant''),
              cr_data_source = Some ''none'', cr_source_urls = [], cr_timestamp = now E 0,
              cr_error = None, cr_status_code = 500\<rparr>"
    if "stream E (req_use_agent request) (req_query request) (get_user_config (req_user_id request))
         = Raised err \<and> print_raises E (''Error in conversation stream: '' @ err) = None"
    using that by (simp add: chat_endpoint_def get_response_stream_raised ChatResponse_def)
  have unprinted: "chat_endpoint E True request =
         Inr \<lparr>cr_user_id = req_user_id request, cr_query = req_query request,
              cr_response = apology_text, cr_mode = ''error'',
              cr_data_source = Some ''none'', cr_source_urls = [], cr_timestamp = now E 1,
              cr_error = Some e, cr_status_code = 500\<rparr>"
    if "stream E (req_use_agent request) (req_query request) (get_user_config (req_user_id request))
         = Raised err \<and> print_raises E (''Error in conversation stream: '' @ err) = Some e"
    using that
    by (simp add: chat_endpoint_def get_response_stream_raised ChatResponse_def error_response_def)
  have invalid: "chat_endpoint E True request =
         Inl (HTTPException 500 (''Error processing your message: '' @ validation_text E bs))"
    if "rd_response (get_response E (req_query request) (req_user_id request) (req_use_agent request))
         = Blocks bs"
    using that by (simp add: chat_endpoint_def ChatResponse_def Let_def)
  from start failed closed printed unprinted invalid show ?thesis by blast
qed

text \<open>
  Claim C6 on a stream that raises, with a standard output that works and with one that
  is closed, and on a reply that is a list of blocks.
\<close>

theorem request_failures_witness:
  "chat_endpoint (ex_env (Raised ''connection reset'') ex_print_ok) True ex_request =
     Inr \<lparr>cr_user_id = ''user123'', cr_query = ''How are flights tracked?'',
          cr_response = stream_failure_text, cr_mode = ''agent'',
          cr_data_source = Some ''none'', cr_source_urls = [], cr_timestamp = 0,
          cr_error = None, cr_status_code = 500\<rparr>
   \<and> chat_endpoint (ex_env (Raised ''connection reset'') ex_print_closed) True ex_request =
     Inr \<lparr>cr_user_id = ''user123'', cr_query = ''How are flights tracked?'',
          cr_response = apology_text, cr_mode = ''error'',
          cr_data_source = Some ''none'', cr_source_urls = [], cr_timestamp = 0,
          cr_error = Some ''I/O operation on closed file'', cr_status_code = 500\<rparr>
   \<and> chat_endpoint (ex_env (Returned ex_blocks_answer) ex_print_ok) True ex_request =
     Inl (HTTPException 500 (''Error processing your message: '' @ ''Input should be a valid string''))
   \<and> chat_endpoint (ex_env (Returned ex_answer) ex_print_ok) False ex_request =
     Inl (HTTPException 503 not_initialized_detail)"
proof -
  let ?ok = "ex_env (Raised ''connection reset'') ex_print_ok"
  let ?closed = "ex_env (Raised ''connection reset'') ex_print_closed"
  let ?blocks = "ex_env (Returned ex_blocks_answer) ex_print_ok"
  have ok: "stream ?ok (req_use_agent ex_request) (req_query ex_request) (get_user_config (req_user_id ex_request))
         = Raised ''connection reset''
       \<and> print_raises ?ok (''Error in conversation stream: '' @ ''connection reset'') = None"
    by (simp add: ex_env_def ex_print_ok_def)
  have closed: "stream ?closed (req_use_agent ex_request) (req_query ex_request) (get_user_config (req_user_id ex_request))
         = Raised ''connection reset''
       \<and> print_raises ?closed (''Error in conversation stream: '' @ ''connection reset'')
         = Some ''I/O operation on closed file''"
    by (simp add: ex_env_def ex_print_closed_def)
  have blocks: "rd_response (get_response ?blocks (req_query ex_request) (req_user_id ex_request)
         (req_use_agent ex_request)) = Blocks [''With ADS-B.'']"
    by (simp add: get_response_def ex_env_def ex_blocks_answer_def content_truthy_def Let_def)
  from ok request_failures [of "Returned ()" "[]" ?ok ex_request "''connection reset''" "[]"]
  have 1: "chat_endpoint ?ok True ex_request =
         Inr \<lparr>cr_user_id = req_user_id ex_request, cr_query = req_query ex_request,
              cr_response = stream_failure_text,
              cr_mode = (if req_use_agent ex_request then ''agent'' else ''assistant''),
              cr_data_source = Some ''none'', cr_source_urls = [], cr_timestamp = now ?ok 0,
              cr_error = None, cr_status_code = 500\<rparr>"
    by blast
  from closed request_failures [of "Returned ()" "''I/O operation on closed file''" ?closed ex_request
      "''connection reset''" "[]"]
  have 2: "chat_endpoint ?closed True ex_request =
         Inr \<lparr>cr_user_id = req_user_id ex_request, cr_query = req_query ex_request,
              cr_response = apology_text, cr_mode = ''error'',
              cr_data_source = Some ''none'', cr_source_urls = [], cr_timestamp = now ?closed 1,
              cr_error = Some ''I/O operation on closed file'', cr_status_code = 500\<rparr>"
    by blast
  from blocks request_failures [of "Returned ()" "[]" ?blocks ex_request "[]" "[''With ADS-B.'']"]
  have 3: "chat_endpoint ?blocks True ex_request =
         Inl (HTTPException 500 (''Error processing your message: '' @ validation_text ?blocks [''With ADS-B.'']))"
    by blast
  from request_failures [of "Returned ()" "[]" "ex_env (Returned ex_answer) ex_print_ok" ex_request "[]" "[]"]
  have 4: "chat_endpoint (ex_env (Returned ex_answer) ex_print_ok) False ex_request =
     Inl (HTTPException 503 not_initialized_detail)"
    by blast
  from 1 2 3 4 show ?thesis
    by (simp add: ex_request_def ex_env_def)
qed

text \<open>
  Claim C10: \<^verbatim>\<open>clear_conversation\<close> changes nothing that the checkpointer holds, so
  the history of every user is after the call what it was before; all the call does is
  print one line (if printing raises, not even that).
\<close>

theorem clear_conversation_keeps_history:
  "checkpoints (snd (clear_conversation E user_id st)) = checkpoints st
   \<and> history (snd (clear_conversation E user_id st)) user_id = history st user_id
   \<and> history (snd (clear_conversation E user_id st)) other = history st other
   \<and> stdout (snd (clear_conversation E user_id st))
       = stdout st @ (if print_raises E (cleared_line user_id) = None then [cleared_line user_id] else [])"
  by (simp add: clear_conversation_def history_def split: option.splits)

end
